theory Spec2Isabelle
  imports Main "HOL-Library.Char_ord" "HOL-Library.List_Lexorder" "HOL-Library.Multiset"
begin

section \<open>Python strings\<close>

text \<open>
  A Python \<^verbatim>\<open>str\<close> is modelled as a \<^typ>\<open>string\<close> whose characters are the code
  points 0..255. Comparison of two strings (\<^verbatim>\<open><\<close>, \<^verbatim>\<open>>\<close>) is Python's: lexicographic
  by code point, a proper prefix being smaller; this is the order of
  \<^theory_text>\<open>List_Lexorder\<close> over \<^theory_text>\<open>Char_ord\<close>.
\<close>

definition code_point :: "char \<Rightarrow> nat" where
  "code_point c = of_char c"

text \<open>\<^verbatim>\<open>str.lower()\<close> on one character: A-Z, and the Latin-1 capitals C0..DE except D7.\<close>

definition lower_chr :: "char \<Rightarrow> char" where
  "lower_chr c =
     (let n = code_point c
      in if (65 \<le> n \<and> n \<le> 90) \<or> (192 \<le> n \<and> n \<le> 222 \<and> n \<noteq> 215)
         then char_of (n + 32) else c)"

definition lower :: "string \<Rightarrow> string" where
  "lower s = map lower_chr s"

text \<open>\<^verbatim>\<open>str.isspace()\<close> on one character, the set that \<^verbatim>\<open>str.strip()\<close> removes.\<close>

definition is_space :: "char \<Rightarrow> bool" where
  "is_space c =
     (let n = code_point c
      in (9 \<le> n \<and> n \<le> 13) \<or> (28 \<le> n \<and> n \<le> 32) \<or> n = 133 \<or> n = 160)"

text \<open>\<^verbatim>\<open>s.strip()\<close> and \<^verbatim>\<open>s.strip(chars)\<close>: drop the characters from both ends.\<close>

definition strip_where :: "(char \<Rightarrow> bool) \<Rightarrow> string \<Rightarrow> string" where
  "strip_where P s = rev (dropWhile P (rev (dropWhile P s)))"

definition strip :: "string \<Rightarrow> string" where
  "strip s = strip_where is_space s"

text \<open>\<^verbatim>\<open>s.startswith(p)\<close>, \<^verbatim>\<open>s.endswith(p)\<close> and \<^verbatim>\<open>p in s\<close>.\<close>

fun startswith :: "string \<Rightarrow> string \<Rightarrow> bool" where
  "startswith s [] = True"
| "startswith [] (p # ps) = False"
| "startswith (x # xs) (p # ps) = (x = p \<and> startswith xs ps)"

definition endswith :: "string \<Rightarrow> string \<Rightarrow> bool" where
  "endswith s p = startswith (rev s) (rev p)"

fun contains :: "string \<Rightarrow> string \<Rightarrow> bool" where
  "contains [] p = (p = [])"
| "contains (x # xs) p = (startswith (x # xs) p \<or> contains xs p)"

text \<open>\<^verbatim>\<open>str(n)\<close> of an integer: decimal digits, with a minus sign when negative.\<close>

definition digit_chr :: "nat \<Rightarrow> char" where
  "digit_chr d = char_of (48 + d)"

fun str_nat :: "nat \<Rightarrow> string" where
  "str_nat n = (if n < 10 then [digit_chr n] else str_nat (n div 10) @ [digit_chr (n mod 10)])"

declare str_nat.simps [simp del]

definition str_int :: "int \<Rightarrow> string" where
  "str_int i = (if i < 0 then CHR ''-'' # str_nat (nat (- i)) else str_nat (nat i))"

section \<open>The regular expressions of the routing rules\<close>

text \<open>
  Every pattern of \<^verbatim>\<open>ROUTE_RULES\<close> is \<^verbatim>\<open>^\<close>, a sequence of literal characters, \<^verbatim>\<open>\d\<close> and
  \<^verbatim>\<open>.*\<close>, then \<^verbatim>\<open>$\<close>, compiled with \<^verbatim>\<open>re.IGNORECASE\<close>. \<^verbatim>\<open>pattern.match(s)\<close> is truthy
  when some way of matching the items consumes \<^verbatim>\<open>s\<close> from its start up to the place
  where \<^verbatim>\<open>$\<close> holds: the end of the string, or just before a newline that ends it.
  \<^verbatim>\<open>.\<close> matches every character but the newline.
\<close>

datatype rx = Lit char | Digit | AnyStar

definition is_digit :: "char \<Rightarrow> bool" where
  "is_digit c = (48 \<le> code_point c \<and> code_point c \<le> 57)"

definition newline :: char where
  "newline = CHR 0x0A"

fun rx_match :: "rx list \<Rightarrow> string \<Rightarrow> bool" where
  "rx_match [] s = (s = [] \<or> s = [newline])"
| "rx_match (Lit c # r) [] = False"
| "rx_match (Lit c # r) (x # xs) = (lower_chr x = lower_chr c \<and> rx_match r xs)"
| "rx_match (Digit # r) [] = False"
| "rx_match (Digit # r) (x # xs) = (is_digit x \<and> rx_match r xs)"
| "rx_match (AnyStar # r) [] = rx_match r []"
| "rx_match (AnyStar # r) (x # xs) =
     (rx_match r (x # xs) \<or> (x \<noteq> newline \<and> rx_match (AnyStar # r) xs))"

definition lits :: "string \<Rightarrow> rx list" where
  "lits s = map Lit s"

text \<open>\<^verbatim>\<open>^FY_\d{4}_<rest>$\<close> and \<^verbatim>\<open>^<stem>.*\.csv$\<close>, the two shapes of the rule list.\<close>

definition fy_pattern :: "string \<Rightarrow> rx list" where
  "fy_pattern rest = lits ''FY_'' @ replicate 4 Digit @ lits rest"

definition stem_pattern :: "string \<Rightarrow> rx list" where
  "stem_pattern stem = lits stem @ [AnyStar] @ lits ''.csv''"

section \<open>Dataset routing (healthcare_gd_to_s3.py)\<close>

definition ROUTE_RULES :: "(rx list \<times> string) list" where
  "ROUTE_RULES =
    [(fy_pattern ''_SNF_VBP_Aggregate_Performance.csv'', ''snf_vbp_aggregate''),
     (fy_pattern ''_SNF_VBP_Facility_Performance.csv'', ''snf_vbp_facility''),
     (stem_pattern ''NH_CitationDescriptions_'', ''nh_citation_descriptions''),
     (stem_pattern ''NH_CovidVaxAverages_'', ''nh_covid_vax_averages''),
     (stem_pattern ''NH_CovidVaxProvider_'', ''nh_covid_vax_provider''),
     (stem_pattern ''NH_DataCollectionIntervals_'', ''nh_data_collection_intervals''),
     (stem_pattern ''NH_FireSafetyCitations_'', ''nh_fire_safety_citations''),
     (stem_pattern ''NH_HealthCitations_'', ''nh_health_citations''),
     (stem_pattern ''NH_HlthInspecCutpointsState_'', ''nh_health_inspection_cutpoints_state''),
     (stem_pattern ''NH_Ownership_'', ''nh_ownership''),
     (stem_pattern ''NH_Penalties_'', ''nh_penalties''),
     (stem_pattern ''NH_ProviderInfo_'', ''nh_provider_info''),
     (stem_pattern ''NH_QualityMsr_Claims_'', ''nh_quality_measure_claims''),
     (stem_pattern ''NH_QualityMsr_MDS_'', ''nh_quality_measure_mds''),
     (stem_pattern ''NH_StateUSAverages_'', ''nh_state_us_averages''),
     (stem_pattern ''NH_SurveyDates_'', ''nh_survey_dates''),
     (stem_pattern ''NH_SurveySummary_'', ''nh_survey_summary''),
     (stem_pattern ''PBJ_Daily_Nurse_Staffing_'', ''pbj_daily_nurse_staffing''),
     (stem_pattern ''Skilled_Nursing_Facility_Quality_Reporting_Program_National_Data_'',
        ''snf_qrp_national''),
     (stem_pattern ''Skilled_Nursing_Facility_Quality_Reporting_Program_Provider_Data_'',
        ''snf_qrp_provider''),
     (stem_pattern ''Swing_Bed_SNF_data_'', ''swing_bed_snf'')]"

text \<open>The loop of \<^verbatim>\<open>dataset_folder_for\<close> over a rule list: the first match returns.\<close>

fun first_match :: "(rx list \<times> string) list \<Rightarrow> string \<Rightarrow> string" where
  "first_match [] file_name = ''_unmapped''"
| "first_match ((pattern, folder) # rules) file_name =
     (if rx_match pattern file_name then folder else first_match rules file_name)"

definition dataset_folder_for :: "string \<Rightarrow> string" where
  "dataset_folder_for file_name = first_match ROUTE_RULES file_name"

section \<open>Column names (raw_to_refined.py)\<close>

text \<open>
  \<^verbatim>\<open>re.sub(r"[...]+", rep, s)\<close> for a character class: every maximal run of characters of
  the class is replaced by \<^verbatim>\<open>rep\<close>.
\<close>

function sub_runs :: "(char \<Rightarrow> bool) \<Rightarrow> string \<Rightarrow> string \<Rightarrow> string" where
  "sub_runs P rep [] = []"
| "sub_runs P rep (x # xs) =
     (if P x then rep @ sub_runs P rep (dropWhile P xs) else x # sub_runs P rep xs)"
  by pat_completeness auto
termination
  by (relation "measure (\<lambda>(P, rep, s). length s)")
     (auto simp: length_dropWhile_le less_Suc_eq_le)

definition is_separator :: "char \<Rightarrow> bool" where
  "is_separator c = (c = CHR '' '' \<or> c = CHR 0x09 \<or> c = CHR ''-'' \<or> c = CHR ''/'')"

definition is_name_chr :: "char \<Rightarrow> bool" where
  "is_name_chr c =
     ((97 \<le> code_point c \<and> code_point c \<le> 122) \<or> is_digit c \<or> c = CHR ''_'')"

definition is_underscore :: "char \<Rightarrow> bool" where
  "is_underscore c = (c = CHR ''_'')"

definition normalize_col :: "string \<Rightarrow> string" where
  "normalize_col col =
     (let c = lower (strip col);
          c = sub_runs is_separator ''_'' c;
          c = filter is_name_chr c;
          c = sub_runs is_underscore ''_'' c;
          c = strip_where is_underscore c
      in if c \<noteq> [] then c else ''col'')"

text \<open>
  The loop of \<^verbatim>\<open>uniqueify\<close>, with the dictionary \<^verbatim>\<open>seen\<close> and the list \<^verbatim>\<open>out\<close> as
  loop state.
\<close>

fun uniqueify_loop :: "(string \<rightharpoonup> int) \<Rightarrow> string list \<Rightarrow> string list \<Rightarrow> string list" where
  "uniqueify_loop seen out [] = out"
| "uniqueify_loop seen out (c # cols) =
     (case seen c of
        None \<Rightarrow> uniqueify_loop (seen(c \<mapsto> 1)) (out @ [c]) cols
      | Some k \<Rightarrow>
          uniqueify_loop (seen(c \<mapsto> k + 1)) (out @ [c @ ''_'' @ str_int (k + 1)]) cols)"

definition uniqueify :: "string list \<Rightarrow> string list" where
  "uniqueify cols = uniqueify_loop Map.empty [] cols"

section \<open>The transform job (raw_to_refined.py)\<close>

record job_config =
  RAW_BUCKET :: string
  RAW_PREFIX :: string
  REFINED_BUCKET :: string
  REFINED_PREFIX :: string
  WRITE_MODE :: string
  HEADER :: string
  DELIMITER :: string
  SKIP_MISSING :: bool
  FAIL_JOB_ON_DATASET_FAILURE :: bool
  DATASETS :: "string list"

definition s3_path :: "string \<Rightarrow> string \<Rightarrow> string \<Rightarrow> string" where
  "s3_path bucket prefix dataset = ''s3://'' @ bucket @ ''/'' @ prefix @ ''/'' @ dataset @ ''/''"

definition is_missing_path_error :: "string \<Rightarrow> bool" where
  "is_missing_path_error e =
     (let msg = lower e;
          patterns = [''path does not exist'', ''no such file or directory'', ''not found'',
                      ''nosuchkey'', ''does not exist'']
      in list_ex (\<lambda>p. contains msg p) patterns)"

text \<open>
  Spark is outside the program. What it does is given by two functions of the calls made
  so far: \<^verbatim>\<open>spark.read...load(raw_path)\<close> raises an exception with a message or yields
  a DataFrame with some columns, and the steps from the lineage columns to the Parquet
  write (renaming, \<^verbatim>\<open>standardize_missing\<close>, \<^verbatim>\<open>count\<close>, \<^verbatim>\<open>dropDuplicates\<close>, \<^verbatim>\<open>save\<close>) raise
  an exception with a message or complete. The calls made are logged in order.
\<close>

datatype spark_call = Load string | TransformWrite "string list" string string

record spark =
  load_csv :: "spark_call list \<Rightarrow> string \<Rightarrow> string \<Rightarrow> string \<Rightarrow> string + string list"
  transform_write :: "spark_call list \<Rightarrow> string list \<Rightarrow> string \<Rightarrow> string \<Rightarrow> string option"

record results =
  r_processed :: "(string \<times> string) list"
  r_skipped_missing :: "(string \<times> string) list"
  r_failed :: "(string \<times> string) list"

definition no_results :: results where
  "no_results = \<lparr>r_processed = [], r_skipped_missing = [], r_failed = []\<rparr>"

text \<open>The \<^verbatim>\<open>except Exception as e\<close> block of the loop, \<^verbatim>\<open>msg\<close> being \<^verbatim>\<open>str(e)\<close>.\<close>

definition on_exception :: "job_config \<Rightarrow> results \<Rightarrow> string \<Rightarrow> string \<Rightarrow> results" where
  "on_exception C res dataset msg =
     (if SKIP_MISSING C \<and> is_missing_path_error msg
      then res\<lparr>r_skipped_missing := r_skipped_missing res @ [(dataset, msg)]\<rparr>
      else res\<lparr>r_failed := r_failed res @ [(dataset, msg)]\<rparr>)"

text \<open>The body of \<^verbatim>\<open>for dataset in DATASETS\<close>.\<close>

definition run_dataset ::
  "job_config \<Rightarrow> spark \<Rightarrow> results \<times> spark_call list \<Rightarrow> string \<Rightarrow> results \<times> spark_call list"
where
  "run_dataset C S st dataset =
     (let res = fst st; log = snd st;
          raw_path = s3_path (RAW_BUCKET C) (RAW_PREFIX C) dataset;
          refined_path = s3_path (REFINED_BUCKET C) (REFINED_PREFIX C) dataset;
          log1 = log @ [Load raw_path]
      in case load_csv S log (HEADER C) (DELIMITER C) raw_path of
           Inl msg \<Rightarrow> (on_exception C res dataset msg, log1)
         | Inr columns \<Rightarrow>
             if SKIP_MISSING C \<and> length columns = 0
             then (res\<lparr>r_skipped_missing := r_skipped_missing res @ [(dataset, ''no columns'')]\<rparr>,
                   log1)
             else
               let normalized_cols =
                     uniqueify (map normalize_col (columns @ [''_source_file'', ''_ingested_at_utc'']));
                   log2 = log1 @ [TransformWrite normalized_cols (WRITE_MODE C) refined_path]
               in (case transform_write S log1 normalized_cols (WRITE_MODE C) refined_path of
                     Some msg \<Rightarrow> (on_exception C res dataset msg, log2)
                   | None \<Rightarrow>
                       (res\<lparr>r_processed := r_processed res @ [(dataset, refined_path)]\<rparr>, log2)))"

fun run_datasets ::
  "job_config \<Rightarrow> spark \<Rightarrow> results \<times> spark_call list \<Rightarrow> string list \<Rightarrow> results \<times> spark_call list"
where
  "run_datasets C S st [] = st"
| "run_datasets C S st (dataset # datasets) = run_datasets C S (run_dataset C S st dataset) datasets"

text \<open>The raw paths of the loads in a call log, and the datasets a result records.\<close>

fun loads :: "spark_call list \<Rightarrow> string list" where
  "loads [] = []"
| "loads (Load p # cs) = p # loads cs"
| "loads (TransformWrite cols mode p # cs) = loads cs"

definition recorded :: "results \<Rightarrow> string list" where
  "recorded res = map fst (r_processed res) @ map fst (r_skipped_missing res) @ map fst (r_failed res)"

datatype job_error = RuntimeError "(string \<times> string) list"

text \<open>
  \<^verbatim>\<open>run()\<close>: the loop from empty result lists, then the check that fails the job. The
  call log is returned beside the result or the error.
\<close>

definition run :: "job_config \<Rightarrow> spark \<Rightarrow> (job_error + results) \<times> spark_call list" where
  "run C S =
     (let st = run_datasets C S (no_results, []) (DATASETS C); res = fst st
      in if FAIL_JOB_ON_DATASET_FAILURE C \<and> length (r_failed res) > 0
         then (Inl (RuntimeError (r_failed res)), snd st)
         else (Inr res, snd st))"

section \<open>The ingestion Lambda (healthcare_gd_to_s3.py)\<close>

subsection \<open>Configuration, data and the outside world\<close>

text \<open>
  The environment variables the modelled code reads. An unset variable is the empty
  string: each of them is checked by \<^verbatim>\<open>require_env\<close>, which rejects \<^verbatim>\<open>None\<close> and the
  empty string alike, before it is used, and \<^verbatim>\<open>S3_PREFIX\<close> defaults to the empty string.
  \<^verbatim>\<open>S3_PREFIX\<close> is the value after \<^verbatim>\<open>.strip("/")\<close>.
\<close>

record config =
  TARGET_S3_BUCKET :: string
  S3_PREFIX :: string
  GLUE_JOB_NAME :: string

text \<open>One entry of the Drive listing; \<^verbatim>\<open>mimeType\<close> and \<^verbatim>\<open>modifiedTime\<close> are read with \<^verbatim>\<open>.get\<close>.\<close>

record drive_file =
  f_id :: string
  f_name :: string
  f_mimeType :: "string option"
  f_modifiedTime :: "string option"

text \<open>A DynamoDB item: a dictionary from attribute names to strings, in insertion order.\<close>

type_synonym item = "(string \<times> string) list"

text \<open>A Python value of the dictionaries the trigger returns.\<close>

datatype pyval = PyNone | PyBool bool | PyStr string

text \<open>One entry of \<^verbatim>\<open>JobRuns\<close>; both fields are read with \<^verbatim>\<open>.get\<close>.\<close>

record job_run =
  JobRunState :: "string option"
  Id :: "string option"

text \<open>The calls the code makes to the services and the local file system.\<close>

datatype call =
    GetItem string
  | PutItem item
  | Download string string
  | Upload string string string
  | Remove string
  | GetJobRuns string
  | StartJobRun string "(string \<times> string) list"

datatype error =
    ValueError string
  | ServiceError call
  | FileNotFoundError string

text \<open>
  The world the handler acts on: the contents of the DynamoDB table by \<^verbatim>\<open>file_id\<close>, the
  paths present under \<^verbatim>\<open>/tmp\<close>, the objects present in S3 by bucket and key, and the log
  of the calls made, oldest first.
\<close>

record world =
  table :: "string \<rightharpoonup> item"
  tmp :: "string set"
  s3 :: "(string \<times> string) set"
  calls :: "call list"

text \<open>
  What the code does not decide: whether a call raises, the clock, the runs Glue lists
  and the identifier Glue gives a new run. Each is a function of the calls made so far.
\<close>

record env =
  fails :: "call list \<Rightarrow> call \<Rightarrow> bool"
  now :: "call list \<Rightarrow> string"
  job_runs :: "call list \<Rightarrow> job_run list"
  new_run_id :: "call list \<Rightarrow> string option"

definition logged :: "world \<Rightarrow> call \<Rightarrow> world" where
  "logged w c = w\<lparr>calls := calls w @ [c]\<rparr>"

definition utc_now_iso :: "env \<Rightarrow> world \<Rightarrow> string" where
  "utc_now_iso E w = now E (calls w)"

definition require_env :: "string \<Rightarrow> string \<Rightarrow> error option" where
  "require_env name v = (if v = [] then Some (ValueError (name @ '' env var is not set'')) else None)"

definition build_s3_key :: "config \<Rightarrow> string \<Rightarrow> string" where
  "build_s3_key C file_name =
     (let dataset = dataset_folder_for file_name
      in if S3_PREFIX C \<noteq> [] then S3_PREFIX C @ ''/'' @ dataset @ ''/'' @ file_name
         else dataset @ ''/'' @ file_name)"

subsection \<open>Transfer steps\<close>

text \<open>
  \<^verbatim>\<open>download_to_tmp\<close> opens the staging file for writing before the first chunk is asked
  for, so the file is there whether the download then raises or not.
\<close>

definition download_to_tmp :: "env \<Rightarrow> world \<Rightarrow> string \<Rightarrow> string \<Rightarrow> error option \<times> world" where
  "download_to_tmp E w file_id tmp_path =
     (let c = Download file_id tmp_path;
          w1 = (logged w c)\<lparr>tmp := insert tmp_path (tmp w)\<rparr>
      in if fails E (calls w) c then (Some (ServiceError c), w1) else (None, w1))"

definition upload_file_to_s3 ::
  "env \<Rightarrow> world \<Rightarrow> string \<Rightarrow> string \<Rightarrow> string \<Rightarrow> error option \<times> world"
where
  "upload_file_to_s3 E w tmp_path bucket key =
     (if tmp_path \<notin> tmp w then (Some (FileNotFoundError tmp_path), w)
      else
        let c = Upload tmp_path bucket key; w1 = logged w c
        in if fails E (calls w) c then (Some (ServiceError c), w1)
           else (None, w1\<lparr>s3 := insert (bucket, key) (s3 w)\<rparr>))"

text \<open>
  \<^verbatim>\<open>try: os.remove(tmp_path) except OSError: pass\<close>. The removal raises \<^verbatim>\<open>OSError\<close> when
  the path is absent or the system refuses; either way nothing is raised to the caller.
\<close>

definition remove_tmp :: "env \<Rightarrow> world \<Rightarrow> string \<Rightarrow> world" where
  "remove_tmp E w tmp_path =
     (let c = Remove tmp_path; w1 = logged w c
      in if tmp_path \<notin> tmp w \<or> fails E (calls w) c then w1
         else w1\<lparr>tmp := tmp w - {tmp_path}\<rparr>)"

subsection \<open>State store\<close>

definition should_process_file ::
  "env \<Rightarrow> world \<Rightarrow> string \<Rightarrow> string \<Rightarrow> (error + bool) \<times> world"
where
  "should_process_file E w file_id drive_modified_time =
     (let c = GetItem file_id; w1 = logged w c
      in if fails E (calls w) c then (Inl (ServiceError c), w1)
         else
           (case table w file_id of
              None \<Rightarrow> (Inr True, w1)
            | Some item \<Rightarrow>
                if item = [] then (Inr True, w1)
                else
                  (case map_of item ''modifiedTime'' of
                     None \<Rightarrow> (Inr True, w1)
                   | Some last_modified \<Rightarrow>
                       if last_modified = [] then (Inr True, w1)
                       else (Inr (drive_modified_time > last_modified), w1))))"

text \<open>The \<^verbatim>\<open>Item\<close> that \<^verbatim>\<open>update_state\<close> writes, \<^verbatim>\<open>ts\<close> being the clock reading.\<close>

definition state_item :: "string \<Rightarrow> string \<Rightarrow> string \<Rightarrow> string \<Rightarrow> string \<Rightarrow> string \<Rightarrow> item" where
  "state_item file_id file_name drive_modified_time s3_bucket s3_key ts =
     [(''file_id'', file_id),
      (''file_name'', file_name),
      (''modifiedTime'', drive_modified_time),
      (''s3_bucket'', s3_bucket),
      (''s3_key'', s3_key),
      (''dataset_folder'', dataset_folder_for file_name),
      (''last_processed_at'', ts)]"

definition update_state ::
  "env \<Rightarrow> world \<Rightarrow> string \<Rightarrow> string \<Rightarrow> string \<Rightarrow> string \<Rightarrow> string \<Rightarrow> error option \<times> world"
where
  "update_state E w file_id file_name drive_modified_time s3_bucket s3_key =
     (let item = state_item file_id file_name drive_modified_time s3_bucket s3_key
                   (utc_now_iso E w);
          c = PutItem item; w1 = logged w c
      in if fails E (calls w) c then (Some (ServiceError c), w1)
         else (None, w1\<lparr>table := (table w)(file_id \<mapsto> item)\<rparr>))"

subsection \<open>The loop over the listing\<close>

text \<open>
  \<^verbatim>\<open>lambda_handler\<close> checks \<^verbatim>\<open>TARGET_S3_BUCKET\<close>, builds the Drive client and the table,
  lists the folder, runs the loop below over the listing \<^verbatim>\<open>files\<close> with the three counters
  at 0, and hands the counters to the trigger. The loop and the trigger are modelled; the
  listing is their input. \<^verbatim>\<open>modified_time or ""\<close> and the test \<^verbatim>\<open>not modified_time\<close> treat
  a missing timestamp and an empty one alike.
\<close>

record counters =
  processed :: int
  skipped :: int
  unmapped :: int

definition or_empty :: "string option \<Rightarrow> string" where
  "or_empty v = (case v of None \<Rightarrow> [] | Some s \<Rightarrow> s)"

definition tmp_path_for :: "string \<Rightarrow> string" where
  "tmp_path_for file_id = ''/tmp/'' @ file_id @ ''.csv''"

text \<open>
  The part of the loop body from \<^verbatim>\<open>s3_key = build_s3_key(file_name)\<close> to
  \<^verbatim>\<open>processed += 1\<close>. An exception leaves the handler: the counters are lost and the
  world stays as the failing step left it.
\<close>

definition transfer :: "config \<Rightarrow> env \<Rightarrow> world \<Rightarrow> counters \<Rightarrow> drive_file \<Rightarrow> (error + counters) \<times> world" where
  "transfer C E w n f =
     (let file_id = f_id f; file_name = f_name f; modified_time = f_modifiedTime f;
          s3_key = build_s3_key C file_name;
          dataset = dataset_folder_for file_name;
          n1 = (if dataset = ''_unmapped'' then n\<lparr>unmapped := unmapped n + 1\<rparr> else n);
          tmp_path = tmp_path_for file_id
      in case download_to_tmp E w file_id tmp_path of
           (Some e, w1) \<Rightarrow> (Inl e, w1)
         | (None, w1) \<Rightarrow>
             (case upload_file_to_s3 E w1 tmp_path (TARGET_S3_BUCKET C) s3_key of
                (Some e, w2) \<Rightarrow> (Inl e, w2)
              | (None, w2) \<Rightarrow>
                  (let w3 = remove_tmp E w2 tmp_path
                   in case update_state E w3 file_id file_name (or_empty modified_time)
                             (TARGET_S3_BUCKET C) s3_key of
                        (Some e, w4) \<Rightarrow> (Inl e, w4)
                      | (None, w4) \<Rightarrow> (Inr (n1\<lparr>processed := processed n1 + 1\<rparr>), w4))))"

text \<open>The body of \<^verbatim>\<open>for f in files\<close>.\<close>

definition handle_file :: "config \<Rightarrow> env \<Rightarrow> world \<Rightarrow> counters \<Rightarrow> drive_file \<Rightarrow> (error + counters) \<times> world" where
  "handle_file C E w n f =
     (let file_id = f_id f; file_name = f_name f; modified_time = f_modifiedTime f
      in if \<not> endswith (lower file_name) ''.csv'' then (Inr n, w)
         else if or_empty modified_time = [] then transfer C E w n f
         else
           (case should_process_file E w file_id (or_empty modified_time) of
              (Inl e, w1) \<Rightarrow> (Inl e, w1)
            | (Inr False, w1) \<Rightarrow> (Inr (n\<lparr>skipped := skipped n + 1\<rparr>), w1)
            | (Inr True, w1) \<Rightarrow> transfer C E w1 n f))"

fun handle_files ::
  "config \<Rightarrow> env \<Rightarrow> world \<Rightarrow> counters \<Rightarrow> drive_file list \<Rightarrow> (error + counters) \<times> world"
where
  "handle_files C E w n [] = (Inr n, w)"
| "handle_files C E w n (f # files) =
     (case handle_file C E w n f of
        (Inl e, w1) \<Rightarrow> (Inl e, w1)
      | (Inr n1, w1) \<Rightarrow> handle_files C E w1 n1 files)"

text \<open>
  What the change detector decides from a table, used to state properties: the file has
  no entry, or no stored timestamp, or an older one than the candidate.
\<close>

definition stale :: "(string \<rightharpoonup> item) \<Rightarrow> string \<Rightarrow> string \<Rightarrow> bool" where
  "stale tbl file_id t =
     (case tbl file_id of
        None \<Rightarrow> True
      | Some st \<Rightarrow> (case map_of st ''modifiedTime'' of None \<Rightarrow> True | Some T \<Rightarrow> T = [] \<or> T < t))"

definition is_csv :: "drive_file \<Rightarrow> bool" where
  "is_csv f = endswith (lower (f_name f)) ''.csv''"

text \<open>The calls a step added to the log.\<close>

definition new_calls :: "world \<Rightarrow> world \<Rightarrow> call list" where
  "new_calls w w' = drop (length (calls w)) (calls w')"

definition no_counts :: counters where
  "no_counts = \<lparr>processed = 0, skipped = 0, unmapped = 0\<rparr>"

subsection \<open>The Glue trigger\<close>

definition in_flight :: "job_run \<Rightarrow> bool" where
  "in_flight r = (JobRunState r \<in> {Some ''STARTING'', Some ''RUNNING'', Some ''STOPPING''})"

definition opt_val :: "string option \<Rightarrow> pyval" where
  "opt_val v = (case v of None \<Rightarrow> PyNone | Some s \<Rightarrow> PyStr s)"

text \<open>The loop \<^verbatim>\<open>for r in runs\<close>: the first run in flight returns from the function.\<close>

fun first_in_flight :: "job_run list \<Rightarrow> (string \<times> pyval) list option" where
  "first_in_flight [] = None"
| "first_in_flight (r # runs) =
     (if in_flight r
      then Some [(''started'', PyBool False),
                 (''reason'', PyStr (''Glue job already '' @ or_empty (JobRunState r))),
                 (''existing_job_run_id'', opt_val (Id r))]
      else first_in_flight runs)"

text \<open>The dictionary \<^verbatim>\<open>arguments\<close> of the trigger, \<^verbatim>\<open>ts\<close> being the clock reading.\<close>

definition start_arguments :: "config \<Rightarrow> string \<Rightarrow> int \<Rightarrow> int \<Rightarrow> int \<Rightarrow> (string \<times> string) list" where
  "start_arguments C ts processed_files skipped_files unmapped_files =
     [(''--triggered_by'', ''drive_to_s3_lambda''),
      (''--s3_bucket'', TARGET_S3_BUCKET C),
      (''--s3_prefix'', S3_PREFIX C),
      (''--processed_files'', str_int processed_files),
      (''--skipped_files'', str_int skipped_files),
      (''--unmapped_files'', str_int unmapped_files),
      (''--run_ts_utc'', ts)]"

definition start_glue_job_if_needed ::
  "config \<Rightarrow> env \<Rightarrow> world \<Rightarrow> int \<Rightarrow> int \<Rightarrow> int \<Rightarrow> (error + (string \<times> pyval) list) \<times> world"
where
  "start_glue_job_if_needed C E w processed_files skipped_files unmapped_files =
     (if processed_files \<le> 0
      then (Inr [(''started'', PyBool False),
                 (''reason'', PyStr ''No new/changed files to process'')], w)
      else
        (case require_env ''GLUE_JOB_NAME'' (GLUE_JOB_NAME C) of
           Some e \<Rightarrow> (Inl e, w)
         | None \<Rightarrow>
             (let q = GetJobRuns (GLUE_JOB_NAME C); w1 = logged w q;
                  guard = (if fails E (calls w) q then None
                           else first_in_flight (job_runs E (calls w)))
              in case guard of
                   Some result \<Rightarrow> (Inr result, w1)
                 | None \<Rightarrow>
                     (let arguments = start_arguments C (utc_now_iso E w1)
                                        processed_files skipped_files unmapped_files;
                          c = StartJobRun (GLUE_JOB_NAME C) arguments; w2 = logged w1 c
                      in if fails E (calls w1) c then (Inl (ServiceError c), w2)
                         else (Inr [(''started'', PyBool True),
                                    (''job_run_id'', opt_val (new_run_id E (calls w1)))], w2)))))"

section \<open>Example inputs\<close>

definition cfg0 :: config where
  "cfg0 = \<lparr>TARGET_S3_BUCKET = ''bucket'', S3_PREFIX = ''raw'', GLUE_JOB_NAME = ''refine''\<rparr>"

text \<open>An environment where no call raises, and one where exactly the S3 uploads raise.\<close>

definition env_ok :: env where
  "env_ok = \<lparr>fails = (\<lambda>h c. False), now = (\<lambda>h. ''2024-11-01T00:00:00+00:00''),
             job_runs = (\<lambda>h. []), new_run_id = (\<lambda>h. Some ''jr_1'')\<rparr>"

definition is_upload :: "call \<Rightarrow> bool" where
  "is_upload c = (case c of Upload p b k \<Rightarrow> True | _ \<Rightarrow> False)"

definition env_upload_down :: env where
  "env_upload_down = env_ok\<lparr>fails := (\<lambda>h c. is_upload c)\<rparr>"

definition world0 :: world where
  "world0 = \<lparr>table = Map.empty, tmp = {}, s3 = {}, calls = []\<rparr>"

text \<open>A table that knows the file \<^verbatim>\<open>f1\<close>, and one whose entry has an empty timestamp.\<close>

definition item1 :: item where
  "item1 = [(''file_id'', ''f1''), (''modifiedTime'', ''2024-10-01T08:00:00.000Z'')]"

definition world1 :: world where
  "world1 = world0\<lparr>table := [''f1'' \<mapsto> item1]\<rparr>"

definition world2 :: world where
  "world2 = world0\<lparr>table := [''f1'' \<mapsto> [(''file_id'', ''f1''), (''modifiedTime'', '''')]]\<rparr>"

text \<open>Listing entries: a routed file with a timestamp, and a file without one.\<close>

definition file1 :: drive_file where
  "file1 = \<lparr>f_id = ''f1'', f_name = ''NH_Ownership_Oct2024.csv'', f_mimeType = Some ''text/csv'',
            f_modifiedTime = Some ''2024-10-01T08:00:00.000Z''\<rparr>"

definition file2 :: drive_file where
  "file2 = \<lparr>f_id = ''f2'', f_name = ''unknownfile.csv'', f_mimeType = Some ''text/csv'',
            f_modifiedTime = None\<rparr>"

text \<open>
  A transform job over three datasets: the raw location of \<^verbatim>\<open>b\<close> is absent, the write of
  \<^verbatim>\<open>c\<close> aborts, \<^verbatim>\<open>a\<close> goes through.
\<close>

definition job0 :: job_config where
  "job0 = \<lparr>RAW_BUCKET = ''lake'', RAW_PREFIX = ''raw'', REFINED_BUCKET = ''lake'',
           REFINED_PREFIX = ''refined'', WRITE_MODE = ''overwrite'', HEADER = ''true'',
           DELIMITER = '','', SKIP_MISSING = True, FAIL_JOB_ON_DATASET_FAILURE = True,
           DATASETS = [''a'', ''b'', ''c'']\<rparr>"

definition spark0 :: spark where
  "spark0 = \<lparr>load_csv = (\<lambda>h header sep path.
                 if path = ''s3://lake/raw/b/'' then Inl ''Path does not exist: s3://lake/raw/b/''
                 else Inr [''Facility  Name/#'', ''State'']),
             transform_write = (\<lambda>h cols mode path.
                 if path = ''s3://lake/refined/c/'' then Some ''Job aborted due to stage failure''
                 else None)\<rparr>"

text \<open>An environment where Glue lists a finished run and a running one, and one where the
  listing of runs raises.\<close>

definition env_running :: env where
  "env_running = env_ok\<lparr>job_runs := (\<lambda>h. [\<lparr>JobRunState = Some ''SUCCEEDED'', Id = Some ''jr_8''\<rparr>,
                                         \<lparr>JobRunState = Some ''RUNNING'', Id = Some ''jr_9''\<rparr>])\<rparr>"

definition is_get_job_runs :: "call \<Rightarrow> bool" where
  "is_get_job_runs c = (case c of GetJobRuns j \<Rightarrow> True | _ \<Rightarrow> False)"

definition env_query_down :: env where
  "env_query_down = env_running\<lparr>fails := (\<lambda>h c. is_get_job_runs c)\<rparr>"

definition file3 :: drive_file where
  "file3 = \<lparr>f_id = ''f3'', f_name = ''README.txt'', f_mimeType = Some ''text/plain'',
            f_modifiedTime = Some ''2024-09-01T10:00:00.000Z''\<rparr>"

text \<open>The file \<^verbatim>\<open>f1\<close> after a later change on the Drive.\<close>

definition file1_changed :: drive_file where
  "file1_changed = file1\<lparr>f_modifiedTime := Some ''2024-10-05T12:00:00.000Z''\<rparr>"

section \<open>Properties of characters and strings\<close>






section \<open>The classifier\<close>





section \<open>Column names\<close>








section \<open>The transform job\<close>

lemma loads_append: "loads (xs @ ys) = loads xs @ loads ys"
  by (induction xs rule: loads.induct) auto

lemma recorded_on_exception:
  "mset (recorded (on_exception C res d msg)) = mset (recorded res) + {#d#}"
  by (simp add: on_exception_def recorded_def)

lemma run_dataset_step:
  "mset (recorded (fst (run_dataset C S st d))) = mset (recorded (fst st)) + {#d#}
   \<and> loads (snd (run_dataset C S st d)) = loads (snd st) @ [s3_path (RAW_BUCKET C) (RAW_PREFIX C) d]"
proof -
  have "mset (recorded (fst (run_dataset C S st d))) = mset (recorded (fst st)) + {#d#}"
    unfolding run_dataset_def Let_def
    by (simp add: recorded_on_exception split: sum.split option.split) (simp add: recorded_def)
  moreover have "loads (snd (run_dataset C S st d))
      = loads (snd st) @ [s3_path (RAW_BUCKET C) (RAW_PREFIX C) d]"
    unfolding run_dataset_def Let_def
    by (simp add: loads_append split: sum.split option.split)
  ultimately show ?thesis by simp
qed

lemma run_datasets_all:
  "mset (recorded (fst (run_datasets C S st ds))) = mset (recorded (fst st)) + mset ds
   \<and> loads (snd (run_datasets C S st ds))
       = loads (snd st) @ map (s3_path (RAW_BUCKET C) (RAW_PREFIX C)) ds"
proof (induction ds arbitrary: st)
  case Nil
  then show ?case by simp
next
  case (Cons d ds)
  show ?case
    using Cons.IH [of "run_dataset C S st d"] run_dataset_step [of C S st d]
    by simp
qed

lemma run_job0:
  "run job0 spark0 =
     (Inl (RuntimeError [(''c'', ''Job aborted due to stage failure'')]),
      [Load ''s3://lake/raw/a/'',
       TransformWrite [''facility_name'', ''state'', ''source_file'', ''ingested_at_utc'']
         ''overwrite'' ''s3://lake/refined/a/'',
       Load ''s3://lake/raw/b/'',
       Load ''s3://lake/raw/c/'',
       TransformWrite [''facility_name'', ''state'', ''source_file'', ''ingested_at_utc'']
         ''overwrite'' ''s3://lake/refined/c/''])"
  by code_simp

lemma run_datasets_job0:
  "fst (run_datasets job0 spark0 (no_results, []) (DATASETS job0)) =
     \<lparr>r_processed = [(''a'', ''s3://lake/refined/a/'')],
      r_skipped_missing = [(''b'', ''Path does not exist: s3://lake/raw/b/'')],
      r_failed = [(''c'', ''Job aborted due to stage failure'')]\<rparr>"
  by code_simp

text \<open>
  Claim C3. Whatever Spark does for each dataset, raising included, the loop of \<^verbatim>\<open>run\<close>
  loads every dataset of \<^verbatim>\<open>DATASETS\<close>, in order, and records each of them in exactly one
  of the lists \<^verbatim>\<open>processed\<close>, \<^verbatim>\<open>skipped_missing\<close> and \<^verbatim>\<open>failed\<close>: the names recorded in
  the three lists together are the datasets, each as often as it is listed. The job is
  failed with a \<^verbatim>\<open>RuntimeError\<close> that carries the failed list exactly when
  \<^verbatim>\<open>FAIL_JOB_ON_DATASET_FAILURE\<close> is set and the failed list of the finished loop is not
  empty; otherwise the result lists are returned.
\<close>

theorem run_isolates_datasets:
  "mset (recorded (fst (run_datasets C S (no_results, []) (DATASETS C)))) = mset (DATASETS C)
   \<and> loads (snd (run C S)) = map (s3_path (RAW_BUCKET C) (RAW_PREFIX C)) (DATASETS C)
   \<and> fst (run C S) =
       (let res = fst (run_datasets C S (no_results, []) (DATASETS C))
        in if FAIL_JOB_ON_DATASET_FAILURE C \<and> r_failed res \<noteq> []
           then Inl (RuntimeError (r_failed res)) else Inr res)"
proof -
  have "recorded no_results = []" by (simp add: recorded_def no_results_def)
  then have a: "mset (recorded (fst (run_datasets C S (no_results, []) (DATASETS C)))) = mset (DATASETS C)"
    and b: "loads (snd (run_datasets C S (no_results, []) (DATASETS C)))
       = map (s3_path (RAW_BUCKET C) (RAW_PREFIX C)) (DATASETS C)"
    using run_datasets_all [of C S "(no_results, [])" "DATASETS C"] by simp_all
  have c: "snd (run C S) = snd (run_datasets C S (no_results, []) (DATASETS C))"
    by (simp add: run_def Let_def)
  have d: "fst (run C S) =
       (let res = fst (run_datasets C S (no_results, []) (DATASETS C))
        in if FAIL_JOB_ON_DATASET_FAILURE C \<and> r_failed res \<noteq> []
           then Inl (RuntimeError (r_failed res)) else Inr res)"
    by (simp add: run_def Let_def)
  from a b c d show ?thesis by simp
qed

theorem run_isolates_datasets_witness:
  "fst (run job0 spark0) = Inl (RuntimeError [(''c'', ''Job aborted due to stage failure'')])
   \<and> loads (snd (run job0 spark0)) = [''s3://lake/raw/a/'', ''s3://lake/raw/b/'', ''s3://lake/raw/c/'']
   \<and> fst (run_datasets job0 spark0 (no_results, []) (DATASETS job0)) =
       \<lparr>r_processed = [(''a'', ''s3://lake/refined/a/'')],
        r_skipped_missing = [(''b'', ''Path does not exist: s3://lake/raw/b/'')],
        r_failed = [(''c'', ''Job aborted due to stage failure'')]\<rparr>"
proof -
  note t = run_isolates_datasets [of job0 spark0]
  have "loads (snd (run job0 spark0)) = map (s3_path (RAW_BUCKET job0) (RAW_PREFIX job0)) (DATASETS job0)"
    using t by blast
  then have l: "loads (snd (run job0 spark0))
      = [''s3://lake/raw/a/'', ''s3://lake/raw/b/'', ''s3://lake/raw/c/'']"
    by (simp add: job0_def s3_path_def)
  have "fst (run job0 spark0) =
       (let res = fst (run_datasets job0 spark0 (no_results, []) (DATASETS job0))
        in if FAIL_JOB_ON_DATASET_FAILURE job0 \<and> r_failed res \<noteq> []
           then Inl (RuntimeError (r_failed res)) else Inr res)"
    using t by blast
  then have f: "fst (run job0 spark0) = Inl (RuntimeError [(''c'', ''Job aborted due to stage failure'')])"
    by (simp add: run_datasets_job0 Let_def) (simp add: job0_def)
  from l f run_datasets_job0 show ?thesis by simp
qed

section \<open>The change detector\<close>

lemma should_process_file_ok:
  "\<not> fails E (calls w) (GetItem file_id) \<Longrightarrow>
   should_process_file E w file_id t = (Inr (stale (table w) file_id t), logged w (GetItem file_id))"
  unfolding should_process_file_def Let_def stale_def
  by (simp split: option.split)

lemma should_process_file_fails:
  "fails E (calls w) (GetItem file_id) \<Longrightarrow>
   should_process_file E w file_id t = (Inl (ServiceError (GetItem file_id)), logged w (GetItem file_id))"
  unfolding should_process_file_def Let_def by simp

lemma env_ok_never_fails: "\<not> fails env_ok h c"
  by (simp add: env_ok_def)

text \<open>
  Claim C2. Whenever the read of the state store returns, \<^verbatim>\<open>should_process_file\<close>
  returns true when the table has no entry for the file identifier, true when the entry
  has no \<^verbatim>\<open>modifiedTime\<close> or an empty one, and otherwise true exactly when the candidate
  timestamp is greater than the stored one in the lexicographic order of strings; for a
  candidate equal to the stored timestamp it returns false.
\<close>

theorem should_process_file_decision:
  "\<not> fails E (calls w) (GetItem file_id) \<longrightarrow>
     (table w file_id = None \<longrightarrow>
        fst (should_process_file E w file_id t) = Inr True)
   \<and> (table w file_id = Some st \<and> map_of st ''modifiedTime'' \<in> {None, Some []} \<longrightarrow>
        fst (should_process_file E w file_id t) = Inr True)
   \<and> (table w file_id = Some st \<and> map_of st ''modifiedTime'' = Some T \<and> T \<noteq> [] \<longrightarrow>
        fst (should_process_file E w file_id t) = Inr (t > T)
        \<and> fst (should_process_file E w file_id T) = Inr False)"
proof (intro impI conjI)
  assume ok: "\<not> fails E (calls w) (GetItem file_id)"
  { assume "table w file_id = None"
    then show "fst (should_process_file E w file_id t) = Inr True"
      by (simp add: should_process_file_ok [OF ok] stale_def) }
  { assume "table w file_id = Some st \<and> map_of st ''modifiedTime'' \<in> {None, Some []}"
    then show "fst (should_process_file E w file_id t) = Inr True"
      by (auto simp add: should_process_file_ok [OF ok] stale_def) }
  { assume a: "table w file_id = Some st \<and> map_of st ''modifiedTime'' = Some T \<and> T \<noteq> []"
    then show "fst (should_process_file E w file_id t) = Inr (t > T)"
      by (simp add: should_process_file_ok [OF ok] stale_def)
    from a show "fst (should_process_file E w file_id T) = Inr False"
      by (simp add: should_process_file_ok [OF ok] stale_def) }
qed

theorem should_process_file_decision_witness:
  "fst (should_process_file env_ok world0 ''f1'' ''2024-10-01T08:00:00.000Z'') = Inr True
   \<and> fst (should_process_file env_ok world2 ''f1'' ''2024-10-01T08:00:00.000Z'') = Inr True
   \<and> fst (should_process_file env_ok world1 ''f1'' ''2024-10-02T09:30:00.000Z'') = Inr True
   \<and> fst (should_process_file env_ok world1 ''f1'' ''2024-09-30T23:59:59.000Z'') = Inr False
   \<and> fst (should_process_file env_ok world1 ''f1'' ''2024-10-01T08:00:00.000Z'') = Inr False"
proof -
  let ?T = "''2024-10-01T08:00:00.000Z''"
  have ok: "\<And>w k. \<not> fails env_ok (calls w) (GetItem k)" by (simp add: env_ok_def)
  have t0: "table world0 ''f1'' = None" by (simp add: world0_def)
  have t1: "table world1 ''f1'' = Some item1 \<and> map_of item1 ''modifiedTime'' = Some ?T \<and> ?T \<noteq> []"
    by (simp add: world1_def world0_def item1_def)
  have t2: "table world2 ''f1'' = Some [(''file_id'', ''f1''), (''modifiedTime'', '''')]
      \<and> map_of [(''file_id'', ''f1''), (''modifiedTime'', '''')] ''modifiedTime'' \<in> {None, Some []}"
    by (simp add: world2_def world0_def)
  have a: "fst (should_process_file env_ok world0 ''f1'' ?T) = Inr True"
    using should_process_file_decision [where E = env_ok and w = world0] ok t0 by blast
  have b: "fst (should_process_file env_ok world2 ''f1'' ?T) = Inr True"
    using should_process_file_decision [where E = env_ok and w = world2] ok t2 by blast
  have c: "fst (should_process_file env_ok world1 ''f1'' ''2024-10-02T09:30:00.000Z'')
           = Inr (''2024-10-02T09:30:00.000Z'' > ?T)"
    using should_process_file_decision [where E = env_ok and w = world1 and st = item1 and T = ?T] ok t1 by blast
  have d: "fst (should_process_file env_ok world1 ''f1'' ''2024-09-30T23:59:59.000Z'')
           = Inr (''2024-09-30T23:59:59.000Z'' > ?T)"
    using should_process_file_decision [where E = env_ok and w = world1 and st = item1 and T = ?T] ok t1 by blast
  have e: "fst (should_process_file env_ok world1 ''f1'' ?T) = Inr False"
    using should_process_file_decision [where E = env_ok and w = world1 and st = item1 and T = ?T] ok t1 by blast
  from a b c d e show ?thesis by simp
qed

section \<open>Transfer and commit\<close>

lemma logged_table [simp]: "table (logged w c) = table w"
  by (simp add: logged_def)

lemma logged_calls [simp]: "calls (logged w c) = calls w @ [c]"
  by (simp add: logged_def)

lemma transfer_cases:
  "transfer C E w n f =
    (let fid = f_id f; tp = tmp_path_for fid; b = TARGET_S3_BUCKET C; key = build_s3_key C (f_name f);
         d = Download fid tp; u = Upload tp b key; r = Remove tp;
         h1 = calls w @ [d]; h2 = h1 @ [u]; h3 = h2 @ [r];
         item = state_item fid (f_name f) (or_empty (f_modifiedTime f)) b key (now E h3);
         p = PutItem item;
         n1 = (if dataset_folder_for (f_name f) = ''_unmapped'' then n\<lparr>unmapped := unmapped n + 1\<rparr> else n);
         tmp3 = (if fails E h2 r then insert tp (tmp w) else tmp w - {tp})
     in if fails E (calls w) d
        then (Inl (ServiceError d), w\<lparr>tmp := insert tp (tmp w), calls := h1\<rparr>)
        else if fails E h1 u
        then (Inl (ServiceError u), w\<lparr>tmp := insert tp (tmp w), calls := h2\<rparr>)
        else if fails E h3 p
        then (Inl (ServiceError p), w\<lparr>tmp := tmp3, s3 := insert (b, key) (s3 w), calls := h3 @ [p]\<rparr>)
        else (Inr (n1\<lparr>processed := processed n1 + 1\<rparr>),
              w\<lparr>table := (table w)(fid \<mapsto> item), tmp := tmp3, s3 := insert (b, key) (s3 w),
                calls := h3 @ [p]\<rparr>))"
  unfolding transfer_def download_to_tmp_def upload_file_to_s3_def remove_tmp_def update_state_def
    logged_def utc_now_iso_def Let_def
  by (simp add: insert_Diff_if)

lemma handle_file_cases:
  "handle_file C E w n f =
     (if \<not> is_csv f then (Inr n, w)
      else if or_empty (f_modifiedTime f) = [] then transfer C E w n f
      else if fails E (calls w) (GetItem (f_id f))
      then (Inl (ServiceError (GetItem (f_id f))), logged w (GetItem (f_id f)))
      else if stale (table w) (f_id f) (or_empty (f_modifiedTime f))
      then transfer C E (logged w (GetItem (f_id f))) n f
      else (Inr (n\<lparr>skipped := skipped n + 1\<rparr>), logged w (GetItem (f_id f))))"
  unfolding handle_file_def Let_def is_csv_def
  by (simp add: should_process_file_ok should_process_file_fails)

lemma transfer_first_call:
  "\<exists>rest. new_calls w (snd (transfer C E w n f)) = Download (f_id f) (tmp_path_for (f_id f)) # rest"
  unfolding transfer_cases Let_def new_calls_def by simp

lemma transfer_ok:
  "transfer C E w n f = (Inr n', w') \<Longrightarrow>
   processed n' = processed n + 1 \<and> skipped n' = skipped n
   \<and> (\<exists>ts. table w' = (table w)(f_id f \<mapsto>
          state_item (f_id f) (f_name f) (or_empty (f_modifiedTime f)) (TARGET_S3_BUCKET C)
            (build_s3_key C (f_name f)) ts))"
  unfolding transfer_cases Let_def by (auto split: if_splits)

lemma transfer_error_table:
  "transfer C E w n f = (Inl e, w') \<Longrightarrow> table w' = table w"
  unfolding transfer_cases Let_def by (auto split: if_splits)

lemma state_item_time: "map_of (state_item i nm t b k ts) ''modifiedTime'' = Some t"
  by (simp add: state_item_def)


lemma stale_cong: "tbl2 k = tbl k \<Longrightarrow> stale tbl2 k t = stale tbl k t"
  by (simp add: stale_def)

lemma stale_after_put:
  assumes "map_of item ''modifiedTime'' = Some T" "T \<noteq> []"
  shows "stale (tbl(k \<mapsto> item)) k t \<longleftrightarrow> T < t"
  using assms by (simp add: stale_def)

lemma stale_other: "k \<noteq> j \<Longrightarrow> stale (tbl(k \<mapsto> item)) j t = stale tbl j t"
  by (simp add: stale_def)

lemma not_stale_less:
  "\<not> stale tbl k t \<Longrightarrow> stale tbl k u \<Longrightarrow> t < u"
  by (auto simp: stale_def split: option.splits)

subsection \<open>The example files\<close>

lemma file1_facts:
  "is_csv file1" "dataset_folder_for (f_name file1) = ''nh_ownership''"
  "build_s3_key cfg0 (f_name file1) = ''raw/nh_ownership/NH_Ownership_Oct2024.csv''"
  "tmp_path_for (f_id file1) = ''/tmp/f1.csv''"
  "or_empty (f_modifiedTime file1) = ''2024-10-01T08:00:00.000Z''"
proof -
  show "is_csv file1" by code_simp
  show d: "dataset_folder_for (f_name file1) = ''nh_ownership''" by code_simp
  show "build_s3_key cfg0 (f_name file1) = ''raw/nh_ownership/NH_Ownership_Oct2024.csv''"
    unfolding build_s3_key_def Let_def d by (simp add: cfg0_def file1_def)
  show "tmp_path_for (f_id file1) = ''/tmp/f1.csv''" by (simp add: tmp_path_for_def file1_def)
  show "or_empty (f_modifiedTime file1) = ''2024-10-01T08:00:00.000Z''"
    by (simp add: or_empty_def file1_def)
qed

lemma file2_facts:
  "is_csv file2" "dataset_folder_for (f_name file2) = ''_unmapped''"
  "build_s3_key cfg0 (f_name file2) = ''raw/_unmapped/unknownfile.csv''"
  "tmp_path_for (f_id file2) = ''/tmp/f2.csv''"
  "or_empty (f_modifiedTime file2) = []"
proof -
  show "is_csv file2" by code_simp
  show d: "dataset_folder_for (f_name file2) = ''_unmapped''" by code_simp
  show "build_s3_key cfg0 (f_name file2) = ''raw/_unmapped/unknownfile.csv''"
    unfolding build_s3_key_def Let_def d by (simp add: cfg0_def file2_def)
  show "tmp_path_for (f_id file2) = ''/tmp/f2.csv''" by (simp add: tmp_path_for_def file2_def)
  show "or_empty (f_modifiedTime file2) = []"
    by (simp add: or_empty_def file2_def)
qed

lemma file3_facts: "\<not> is_csv file3"
  by code_simp

lemma file1_changed_facts:
  "is_csv file1_changed" "dataset_folder_for (f_name file1_changed) = ''nh_ownership''"
  "build_s3_key cfg0 (f_name file1_changed) = ''raw/nh_ownership/NH_Ownership_Oct2024.csv''"
  "tmp_path_for (f_id file1_changed) = ''/tmp/f1.csv''"
  "or_empty (f_modifiedTime file1_changed) = ''2024-10-05T12:00:00.000Z''"
  "f_id file1_changed = ''f1''"
proof -
  have n: "f_name file1_changed = f_name file1" and i: "f_id file1_changed = f_id file1"
    by (simp_all add: file1_changed_def)
  show "is_csv file1_changed" using file1_facts(1) by (simp add: is_csv_def n)
  show "dataset_folder_for (f_name file1_changed) = ''nh_ownership''"
    using file1_facts(2) by (simp add: n)
  show "build_s3_key cfg0 (f_name file1_changed) = ''raw/nh_ownership/NH_Ownership_Oct2024.csv''"
    using file1_facts(3) by (simp add: n)
  show "tmp_path_for (f_id file1_changed) = ''/tmp/f1.csv''"
    using file1_facts(4) by (simp add: i)
  show "or_empty (f_modifiedTime file1_changed) = ''2024-10-05T12:00:00.000Z''"
    by (simp add: file1_changed_def or_empty_def)
  show "f_id file1_changed = ''f1''" by (simp add: i file1_def)
qed

lemma upload_fails_file1:
  "handle_file cfg0 env_upload_down world0 no_counts file1 =
     (Inl (ServiceError (Upload ''/tmp/f1.csv'' ''bucket'' ''raw/nh_ownership/NH_Ownership_Oct2024.csv'')),
      world0\<lparr>tmp := {''/tmp/f1.csv''},
             calls := [GetItem ''f1'', Download ''f1'' ''/tmp/f1.csv'',
                       Upload ''/tmp/f1.csv'' ''bucket'' ''raw/nh_ownership/NH_Ownership_Oct2024.csv'']\<rparr>)"
  by (simp only: handle_file_cases transfer_cases Let_def file1_facts)
     (simp add: env_upload_down_def env_ok_def is_upload_def stale_def world0_def logged_def
        cfg0_def file1_def)

lemma upload_fails_file1_changed:
  "handle_file cfg0 env_upload_down world1 no_counts file1_changed =
     (Inl (ServiceError (Upload ''/tmp/f1.csv'' ''bucket'' ''raw/nh_ownership/NH_Ownership_Oct2024.csv'')),
      world1\<lparr>tmp := {''/tmp/f1.csv''},
             calls := [GetItem ''f1'', Download ''f1'' ''/tmp/f1.csv'',
                       Upload ''/tmp/f1.csv'' ''bucket'' ''raw/nh_ownership/NH_Ownership_Oct2024.csv'']\<rparr>)"
  by (simp only: handle_file_cases transfer_cases Let_def file1_changed_facts)
     (simp add: env_upload_down_def env_ok_def is_upload_def stale_def world1_def world0_def
        logged_def cfg0_def item1_def tmp_path_for_def)

lemma first_run_file1:
  "handle_file cfg0 env_ok world0 no_counts file1 =
     (Inr \<lparr>processed = 1, skipped = 0, unmapped = 0\<rparr>,
      \<lparr>table = [''f1'' \<mapsto> state_item ''f1'' ''NH_Ownership_Oct2024.csv'' ''2024-10-01T08:00:00.000Z''
                            ''bucket'' ''raw/nh_ownership/NH_Ownership_Oct2024.csv''
                            ''2024-11-01T00:00:00+00:00''],
       tmp = {}, s3 = {(''bucket'', ''raw/nh_ownership/NH_Ownership_Oct2024.csv'')},
       calls = [GetItem ''f1'', Download ''f1'' ''/tmp/f1.csv'',
                Upload ''/tmp/f1.csv'' ''bucket'' ''raw/nh_ownership/NH_Ownership_Oct2024.csv'',
                Remove ''/tmp/f1.csv'',
                PutItem (state_item ''f1'' ''NH_Ownership_Oct2024.csv'' ''2024-10-01T08:00:00.000Z''
                            ''bucket'' ''raw/nh_ownership/NH_Ownership_Oct2024.csv''
                            ''2024-11-01T00:00:00+00:00'')]\<rparr>)"
  by (simp only: handle_file_cases transfer_cases Let_def file1_facts)
     (simp add: env_ok_def world0_def cfg0_def file1_def no_counts_def stale_def logged_def)


lemma file2_always_transferred:
  "fst (handle_file cfg0 env_ok w no_counts file2) = Inr \<lparr>processed = 1, skipped = 0, unmapped = 1\<rparr>"
  by (simp only: handle_file_cases transfer_cases Let_def file2_facts)
     (simp add: env_ok_def no_counts_def)

subsection \<open>The staging file\<close>

text \<open>
  Claim C9, as the code has it. The staging file is removed only on the path where the
  upload succeeded. When the download or the upload raises, the transfer ends there: the
  staging file is still present and no removal was attempted. When both succeed, the
  calls of the transfer are the download, the upload, the removal and the write of the
  state, in this order; the staging file is gone afterwards unless the removal raised,
  and a removal that raised does not stop the write of the state.
\<close>

theorem staging_removed_only_after_upload:
  "(let tp = tmp_path_for (f_id f);
        d = Download (f_id f) tp;
        u = Upload tp (TARGET_S3_BUCKET C) (build_s3_key C (f_name f));
        r = Remove tp;
        w' = snd (transfer C E w n f)
    in (fst (transfer C E w n f) \<in> {Inl (ServiceError d), Inl (ServiceError u)} \<longrightarrow>
          tp \<in> tmp w' \<and> r \<notin> set (new_calls w w'))
       \<and> (\<not> fails E (calls w) d \<and> \<not> fails E (calls w @ [d]) u \<longrightarrow>
            (\<exists>p. new_calls w w' = [d, u, r, PutItem p])
            \<and> (tp \<in> tmp w' \<longleftrightarrow> fails E (calls w @ [d, u]) r)))"
  unfolding transfer_cases Let_def new_calls_def
  by auto

theorem staging_removed_only_after_upload_witness:
  "''/tmp/f1.csv'' \<notin> tmp (snd (transfer cfg0 env_ok world0 no_counts file1))
   \<and> Remove ''/tmp/f1.csv'' \<in> set (new_calls world0 (snd (transfer cfg0 env_ok world0 no_counts file1)))
   \<and> ''/tmp/f1.csv'' \<in> tmp (snd (transfer cfg0 env_upload_down world0 no_counts file1))
   \<and> Remove ''/tmp/f1.csv''
       \<notin> set (new_calls world0 (snd (transfer cfg0 env_upload_down world0 no_counts file1)))"
proof -
  let ?d = "Download ''f1'' ''/tmp/f1.csv''"
  let ?u = "Upload ''/tmp/f1.csv'' ''bucket'' ''raw/nh_ownership/NH_Ownership_Oct2024.csv''"
  have id: "f_id file1 = ''f1''" by (simp add: file1_def)
  have b: "TARGET_S3_BUCKET cfg0 = ''bucket''" by (simp add: cfg0_def)
  note ok = staging_removed_only_after_upload [of file1 cfg0 env_ok world0 no_counts]
  note down = staging_removed_only_after_upload [of file1 cfg0 env_upload_down world0 no_counts]
  have "fst (transfer cfg0 env_upload_down world0 no_counts file1) = Inl (ServiceError ?u)"
    by (simp only: transfer_cases Let_def file1_facts)
       (simp add: env_upload_down_def env_ok_def is_upload_def world0_def cfg0_def file1_def)
  with down have "''/tmp/f1.csv'' \<in> tmp (snd (transfer cfg0 env_upload_down world0 no_counts file1))
     \<and> Remove ''/tmp/f1.csv''
       \<notin> set (new_calls world0 (snd (transfer cfg0 env_upload_down world0 no_counts file1)))"
    by (simp add: Let_def file1_facts b id tmp_path_for_def)
  moreover from ok have "''/tmp/f1.csv'' \<notin> tmp (snd (transfer cfg0 env_ok world0 no_counts file1))
     \<and> Remove ''/tmp/f1.csv'' \<in> set (new_calls world0 (snd (transfer cfg0 env_ok world0 no_counts file1)))"
    using env_ok_never_fails by (auto simp add: Let_def file1_facts b id tmp_path_for_def)
  ultimately show ?thesis by simp
qed

text \<open>
  Claim C9 as stated has the staging file deleted also when the upload fails. With an
  upload that raises, the handler ends with \<^verbatim>\<open>/tmp/f1.csv\<close> in place and without having
  called \<^verbatim>\<open>os.remove\<close>.
\<close>

theorem staging_left_after_failed_upload_counterexample:
  "fst (handle_file cfg0 env_upload_down world0 no_counts file1) =
     Inl (ServiceError (Upload ''/tmp/f1.csv'' ''bucket'' ''raw/nh_ownership/NH_Ownership_Oct2024.csv''))
   \<and> ''/tmp/f1.csv'' \<in> tmp (snd (handle_file cfg0 env_upload_down world0 no_counts file1))
   \<and> Remove ''/tmp/f1.csv'' \<notin> set (calls (snd (handle_file cfg0 env_upload_down world0 no_counts file1)))"
  unfolding upload_fails_file1 by simp

subsection \<open>Files without a timestamp\<close>



subsection \<open>A failed upload\<close>

lemma handle_files_abort_split:
  "handle_files C E w n files = (Inl e, w') \<Longrightarrow>
   \<exists>pre f post nm wm. files = pre @ f # post \<and> handle_files C E w n pre = (Inr nm, wm)
       \<and> handle_file C E wm nm f = (Inl e, w')"
proof (induction files arbitrary: w n)
  case Nil
  then show ?case by simp
next
  case (Cons g files)
  obtain r w1 where g: "handle_file C E w n g = (r, w1)" by (cases "handle_file C E w n g")
  show ?case
  proof (cases r)
    case (Inl e1)
    with g Cons.prems have "handle_file C E w n g = (Inl e, w')" by simp
    moreover have "handle_files C E w n [] = (Inr n, w)" by simp
    ultimately have "g # files = [] @ g # files \<and> handle_files C E w n [] = (Inr n, w)
        \<and> handle_file C E w n g = (Inl e, w')" by simp
    then show ?thesis by blast
  next
    case (Inr n1)
    with g Cons.prems have "handle_files C E w1 n1 files = (Inl e, w')" by simp
    from Cons.IH [OF this] obtain pre f post nm wm where
      p: "files = pre @ f # post" "handle_files C E w1 n1 pre = (Inr nm, wm)"
         "handle_file C E wm nm f = (Inl e, w')" by blast
    have "g # files = (g # pre) @ f # post" using p(1) by simp
    moreover have "handle_files C E w n (g # pre) = (Inr nm, wm)" using g Inr p(2) by simp
    ultimately show ?thesis using p(3) by blast
  qed
qed

lemma handle_file_upload_error:
  assumes "handle_file C E w n f = (Inl (ServiceError (Upload p b k)), w')"
  shows "is_csv f \<and> table w' = table w
     \<and> (or_empty (f_modifiedTime f) = [] \<or> stale (table w) (f_id f) (or_empty (f_modifiedTime f)))
     \<and> p = tmp_path_for (f_id f) \<and> b = TARGET_S3_BUCKET C \<and> k = build_s3_key C (f_name f)"
proof -
  from assms have csv: "is_csv f" by (auto simp: handle_file_cases split: if_splits)
  from assms csv consider
      (a) "or_empty (f_modifiedTime f) = []" "transfer C E w n f = (Inl (ServiceError (Upload p b k)), w')"
    | (b) "stale (table w) (f_id f) (or_empty (f_modifiedTime f))"
          "transfer C E (logged w (GetItem (f_id f))) n f = (Inl (ServiceError (Upload p b k)), w')"
    by (auto simp: handle_file_cases split: if_splits)
  then show ?thesis
  proof cases
    case a
    from a(2) have "p = tmp_path_for (f_id f) \<and> b = TARGET_S3_BUCKET C \<and> k = build_s3_key C (f_name f)"
      unfolding transfer_cases Let_def by (auto split: if_splits)
    with a csv transfer_error_table [OF a(2)] show ?thesis by simp
  next
    case b
    from b(2) have "p = tmp_path_for (f_id f) \<and> b = TARGET_S3_BUCKET C \<and> k = build_s3_key C (f_name f)"
      unfolding transfer_cases Let_def by (auto split: if_splits)
    with b csv transfer_error_table [OF b(2)] show ?thesis by simp
  qed
qed

lemma handle_file_eligible_downloads:
  assumes "is_csv f"
    and "or_empty (f_modifiedTime f) = [] \<or> stale (table w) (f_id f) (or_empty (f_modifiedTime f))"
    and "\<not> fails E (calls w) (GetItem (f_id f))"
  shows "Download (f_id f) (tmp_path_for (f_id f)) \<in> set (new_calls w (snd (handle_file C E w n f)))"
proof (cases "or_empty (f_modifiedTime f) = []")
  case True
  then have "handle_file C E w n f = transfer C E w n f" using assms(1) by (simp add: handle_file_cases)
  then show ?thesis using transfer_first_call [of w C E n f] by auto
next
  case False
  then have h: "handle_file C E w n f = transfer C E (logged w (GetItem (f_id f))) n f"
    using assms by (simp add: handle_file_cases)
  obtain rest where r: "new_calls (logged w (GetItem (f_id f))) (snd (transfer C E (logged w (GetItem (f_id f))) n f))
      = Download (f_id f) (tmp_path_for (f_id f)) # rest"
    using transfer_first_call by blast
  have "Download (f_id f) (tmp_path_for (f_id f)) \<in> set (drop (Suc (length (calls w))) (calls (snd (transfer C E (logged w (GetItem (f_id f))) n f))))"
    using r by (simp add: new_calls_def)
  then have "Download (f_id f) (tmp_path_for (f_id f)) \<in> set (drop (length (calls w)) (calls (snd (transfer C E (logged w (GetItem (f_id f))) n f))))"
    by (metis Suc_n_not_le_n nat_le_linear set_drop_subset_set_drop subsetD)
  then show ?thesis by (simp add: h new_calls_def)
qed

text \<open>
  Claim C1. When the loop over the listing ends with the exception of an S3 upload, the
  files before the failing one were handled without error, the failing upload is the one
  of the staging file of the failing file, and the table is what it was when the handling
  of that file began: nothing was committed for it. In a later run, from any world whose
  entry for that file identifier is the same, the same listing entry is not skipped:
  whenever the read of the state store returns, its download is attempted again.
\<close>

theorem failed_upload_commits_nothing:
  "handle_files C E w n files = (Inl (ServiceError (Upload p b k)), w') \<longrightarrow>
     (\<exists>pre f post nm wm.
         files = pre @ f # post
       \<and> handle_files C E w n pre = (Inr nm, wm)
       \<and> handle_file C E wm nm f = (Inl (ServiceError (Upload p b k)), w')
       \<and> p = tmp_path_for (f_id f)
       \<and> table w' = table wm
       \<and> (\<forall>E2 w2 n2. table w2 (f_id f) = table w' (f_id f)
              \<and> \<not> fails E2 (calls w2) (GetItem (f_id f)) \<longrightarrow>
            Download (f_id f) (tmp_path_for (f_id f))
              \<in> set (new_calls w2 (snd (handle_file C E2 w2 n2 f)))))"
proof
  assume "handle_files C E w n files = (Inl (ServiceError (Upload p b k)), w')"
  from handle_files_abort_split [OF this] obtain pre f post nm wm where
    s: "files = pre @ f # post" "handle_files C E w n pre = (Inr nm, wm)"
       "handle_file C E wm nm f = (Inl (ServiceError (Upload p b k)), w')" by blast
  note u = handle_file_upload_error [OF s(3)]
  have again: "\<forall>E2 w2 n2. table w2 (f_id f) = table w' (f_id f)
              \<and> \<not> fails E2 (calls w2) (GetItem (f_id f)) \<longrightarrow>
            Download (f_id f) (tmp_path_for (f_id f))
              \<in> set (new_calls w2 (snd (handle_file C E2 w2 n2 f)))"
  proof (intro allI impI)
    fix E2 :: env and w2 :: world and n2 :: counters
    assume a: "table w2 (f_id f) = table w' (f_id f) \<and> \<not> fails E2 (calls w2) (GetItem (f_id f))"
    then have "table w2 (f_id f) = table wm (f_id f)" using u by simp
    then have "stale (table w2) (f_id f) (or_empty (f_modifiedTime f))
        = stale (table wm) (f_id f) (or_empty (f_modifiedTime f))" by (rule stale_cong)
    then have "or_empty (f_modifiedTime f) = [] \<or> stale (table w2) (f_id f) (or_empty (f_modifiedTime f))"
      using u by blast
    then show "Download (f_id f) (tmp_path_for (f_id f))
              \<in> set (new_calls w2 (snd (handle_file C E2 w2 n2 f)))"
      using handle_file_eligible_downloads [of f w2 E2 C n2] u a by blast
  qed
  from s u again show "\<exists>pre f post nm wm.
         files = pre @ f # post
       \<and> handle_files C E w n pre = (Inr nm, wm)
       \<and> handle_file C E wm nm f = (Inl (ServiceError (Upload p b k)), w')
       \<and> p = tmp_path_for (f_id f)
       \<and> table w' = table wm
       \<and> (\<forall>E2 w2 n2. table w2 (f_id f) = table w' (f_id f)
              \<and> \<not> fails E2 (calls w2) (GetItem (f_id f)) \<longrightarrow>
            Download (f_id f) (tmp_path_for (f_id f))
              \<in> set (new_calls w2 (snd (handle_file C E2 w2 n2 f))))"
    by blast
qed

theorem failed_upload_commits_nothing_witness:
  "fst (handle_files cfg0 env_upload_down world1 no_counts [file3, file1_changed])
     = Inl (ServiceError (Upload ''/tmp/f1.csv'' ''bucket'' ''raw/nh_ownership/NH_Ownership_Oct2024.csv''))
   \<and> table (snd (handle_files cfg0 env_upload_down world1 no_counts [file3, file1_changed])) ''f1''
       = Some item1
   \<and> Download ''f1'' ''/tmp/f1.csv''
       \<in> set (new_calls (snd (handle_files cfg0 env_upload_down world1 no_counts [file3, file1_changed]))
                (snd (handle_file cfg0 env_ok
                        (snd (handle_files cfg0 env_upload_down world1 no_counts [file3, file1_changed]))
                        no_counts file1_changed)))"
proof -
  let ?fs = "[file3, file1_changed]"
  let ?u = "Upload ''/tmp/f1.csv'' ''bucket'' ''raw/nh_ownership/NH_Ownership_Oct2024.csv''"
  have three: "\<And>w n. handle_file cfg0 env_upload_down w n file3 = (Inr n, w)"
    by (simp add: handle_file_cases file3_facts)
  define w' where "w' = world1\<lparr>tmp := {''/tmp/f1.csv''},
             calls := [GetItem ''f1'', Download ''f1'' ''/tmp/f1.csv'', ?u]\<rparr>"
  have run: "handle_files cfg0 env_upload_down world1 no_counts ?fs = (Inl (ServiceError ?u), w')"
    by (simp add: three upload_fails_file1_changed w'_def)
  have tbl: "table w' ''f1'' = Some item1"
    by (simp add: w'_def world1_def world0_def)
  from failed_upload_commits_nothing [of cfg0 env_upload_down world1 no_counts ?fs
      "''/tmp/f1.csv''" "''bucket''" "''raw/nh_ownership/NH_Ownership_Oct2024.csv''" w'] run
  obtain pre f post nm wm where
    s: "?fs = pre @ f # post" "handle_files cfg0 env_upload_down world1 no_counts pre = (Inr nm, wm)"
       "handle_file cfg0 env_upload_down wm nm f = (Inl (ServiceError ?u), w')"
    and again: "\<forall>E2 w2 n2. table w2 (f_id f) = table w' (f_id f)
              \<and> \<not> fails E2 (calls w2) (GetItem (f_id f)) \<longrightarrow>
            Download (f_id f) (tmp_path_for (f_id f))
              \<in> set (new_calls w2 (snd (handle_file cfg0 E2 w2 n2 f)))"
    by blast
  have "f = file1_changed"
  proof (cases pre)
    case Nil
    with s(1) have "f = file3" by simp
    with s(3) three show ?thesis by simp
  next
    case (Cons a pre')
    with s(1) have "pre' @ f # post = [file1_changed]" by simp
    then show ?thesis by (cases pre') auto
  qed
  with again have "Download ''f1'' ''/tmp/f1.csv''
       \<in> set (new_calls w' (snd (handle_file cfg0 env_ok w' no_counts file1_changed)))"
    using env_ok_never_fails by (simp add: file1_changed_facts(6) tmp_path_for_def)
  with run tbl show ?thesis by simp
qed

subsection \<open>A second run\<close>

lemma handle_file_table:
  assumes "handle_file C E w n f = (Inr n', w')"
  shows "table w' = table w
     \<or> (is_csv f
        \<and> (or_empty (f_modifiedTime f) = [] \<or> stale (table w) (f_id f) (or_empty (f_modifiedTime f)))
        \<and> (\<exists>item. table w' = (table w)(f_id f \<mapsto> item)
               \<and> map_of item ''modifiedTime'' = Some (or_empty (f_modifiedTime f))))"
proof -
  from assms consider
      (skip) "table w' = table w"
    | (a) "is_csv f" "or_empty (f_modifiedTime f) = []" "transfer C E w n f = (Inr n', w')"
    | (b) "is_csv f" "stale (table w) (f_id f) (or_empty (f_modifiedTime f))"
          "transfer C E (logged w (GetItem (f_id f))) n f = (Inr n', w')"
    by (auto simp: handle_file_cases split: if_splits)
  then show ?thesis
  proof cases
    case skip
    then show ?thesis by simp
  next
    case a
    from transfer_ok [OF a(3)] a(1,2) show ?thesis by (auto simp: state_item_time)
  next
    case b
    from transfer_ok [OF b(3)] b(1,2) show ?thesis
      by (auto simp: state_item_time)
  qed
qed

lemma handle_file_keeps_fresh:
  assumes h: "handle_file C E w n f = (Inr n', w')"
    and ts: "is_csv f \<longrightarrow> or_empty (f_modifiedTime f) \<noteq> []"
    and fresh: "\<not> stale (table w) j t"
  shows "\<not> stale (table w') j t"
proof -
  from handle_file_table [OF h] show ?thesis
  proof
    assume "table w' = table w"
    then show ?thesis using fresh by simp
  next
    assume a: "is_csv f
        \<and> (or_empty (f_modifiedTime f) = [] \<or> stale (table w) (f_id f) (or_empty (f_modifiedTime f)))
        \<and> (\<exists>item. table w' = (table w)(f_id f \<mapsto> item)
               \<and> map_of item ''modifiedTime'' = Some (or_empty (f_modifiedTime f)))"
    let ?u = "or_empty (f_modifiedTime f)"
    from a ts have u: "?u \<noteq> []" and st: "stale (table w) (f_id f) ?u" by auto
    from a obtain item where item: "table w' = (table w)(f_id f \<mapsto> item)"
      "map_of item ''modifiedTime'' = Some ?u" by blast
    show ?thesis
    proof (cases "j = f_id f")
      case True
      from fresh st True have "t < ?u" using not_stale_less by blast
      then have "\<not> ?u < t" by simp
      then show ?thesis using True item u by (simp add: stale_after_put)
    next
      case False
      then show ?thesis using item fresh by (simp add: stale_other)
    qed
  qed
qed

lemma handle_file_makes_fresh:
  assumes h: "handle_file C E w n f = (Inr n', w')"
    and csv: "is_csv f" and ts: "or_empty (f_modifiedTime f) \<noteq> []"
  shows "\<not> stale (table w') (f_id f) (or_empty (f_modifiedTime f))"
proof -
  let ?u = "or_empty (f_modifiedTime f)"
  from handle_file_table [OF h] show ?thesis
  proof
    assume same: "table w' = table w"
    have "\<not> stale (table w) (f_id f) ?u"
    proof
      assume st: "stale (table w) (f_id f) ?u"
      from h csv ts st have t: "transfer C E (logged w (GetItem (f_id f))) n f = (Inr n', w')"
        by (simp add: handle_file_cases split: if_splits)
      from transfer_ok [OF t] obtain x where "table w' = (table w)(f_id f \<mapsto>
          state_item (f_id f) (f_name f) ?u (TARGET_S3_BUCKET C) (build_s3_key C (f_name f)) x)"
        by auto
      then have "\<not> stale (table w') (f_id f) ?u"
        using ts by (simp add: stale_after_put state_item_time)
      with same st show False by simp
    qed
    then show ?thesis using same by simp
  next
    assume "is_csv f
        \<and> (or_empty (f_modifiedTime f) = [] \<or> stale (table w) (f_id f) (or_empty (f_modifiedTime f)))
        \<and> (\<exists>item. table w' = (table w)(f_id f \<mapsto> item)
               \<and> map_of item ''modifiedTime'' = Some (or_empty (f_modifiedTime f)))"
    then obtain item where "table w' = (table w)(f_id f \<mapsto> item)"
      "map_of item ''modifiedTime'' = Some ?u" by blast
    then show ?thesis using ts by (simp add: stale_after_put)
  qed
qed

lemma handle_files_keep_fresh:
  "handle_files C E w n files = (Inr n', w') \<Longrightarrow>
   \<forall>f\<in>set files. is_csv f \<longrightarrow> or_empty (f_modifiedTime f) \<noteq> [] \<Longrightarrow>
   \<not> stale (table w) j t \<Longrightarrow> \<not> stale (table w') j t"
proof (induction files arbitrary: w n)
  case Nil
  then show ?case by simp
next
  case (Cons g files)
  obtain r w1 where g: "handle_file C E w n g = (r, w1)" by (cases "handle_file C E w n g")
  with Cons.prems(1) obtain n1 where r: "r = Inr n1" by (cases r) auto
  with g Cons.prems(1) have rest: "handle_files C E w1 n1 files = (Inr n', w')" by simp
  have "\<not> stale (table w1) j t"
    using handle_file_keeps_fresh [of C E w n g n1 w1 j t] g r Cons.prems(2,3) by simp
  then show ?case using Cons.IH [OF rest] Cons.prems(2) by simp
qed

lemma handle_files_all_fresh:
  "handle_files C E w n files = (Inr n', w') \<Longrightarrow>
   \<forall>f\<in>set files. is_csv f \<longrightarrow> or_empty (f_modifiedTime f) \<noteq> [] \<Longrightarrow>
   \<forall>f\<in>set files. is_csv f \<longrightarrow> \<not> stale (table w') (f_id f) (or_empty (f_modifiedTime f))"
proof (induction files arbitrary: w n)
  case Nil
  then show ?case by simp
next
  case (Cons g files)
  obtain r w1 where g: "handle_file C E w n g = (r, w1)" by (cases "handle_file C E w n g")
  with Cons.prems(1) obtain n1 where r: "r = Inr n1" by (cases r) auto
  with g Cons.prems(1) have rest: "handle_files C E w1 n1 files = (Inr n', w')" by simp
  have tl: "\<forall>f\<in>set files. is_csv f \<longrightarrow> or_empty (f_modifiedTime f) \<noteq> []"
    using Cons.prems(2) by simp
  have "is_csv g \<longrightarrow> \<not> stale (table w') (f_id g) (or_empty (f_modifiedTime g))"
  proof
    assume csv: "is_csv g"
    then have ts: "or_empty (f_modifiedTime g) \<noteq> []" using Cons.prems(2) by simp
    have "\<not> stale (table w1) (f_id g) (or_empty (f_modifiedTime g))"
      using handle_file_makes_fresh [of C E w n g n1 w1] g r csv ts by simp
    then show "\<not> stale (table w') (f_id g) (or_empty (f_modifiedTime g))"
      using handle_files_keep_fresh [OF rest tl] by blast
  qed
  then show ?case using Cons.IH [OF rest tl] by simp
qed

lemma handle_files_all_skipped:
  "\<forall>h k. \<not> fails E h (GetItem k) \<Longrightarrow>
   \<forall>f\<in>set files. is_csv f \<longrightarrow>
       or_empty (f_modifiedTime f) \<noteq> [] \<and> \<not> stale (table w) (f_id f) (or_empty (f_modifiedTime f)) \<Longrightarrow>
   handle_files C E w n files =
     (Inr (n\<lparr>skipped := skipped n + int (length (filter is_csv files))\<rparr>),
      w\<lparr>calls := calls w @ map (\<lambda>f. GetItem (f_id f)) (filter is_csv files)\<rparr>)"
proof (induction files arbitrary: w n)
  case Nil
  then show ?case by simp
next
  case (Cons g files)
  show ?case
  proof (cases "is_csv g")
    case False
    then have "handle_file C E w n g = (Inr n, w)" by (simp add: handle_file_cases)
    then show ?thesis using Cons.IH [of w n] Cons.prems False by simp
  next
    case True
    let ?w1 = "logged w (GetItem (f_id g))"
    let ?n1 = "n\<lparr>skipped := skipped n + 1\<rparr>"
    have "handle_file C E w n g = (Inr ?n1, ?w1)"
      using True Cons.prems by (simp add: handle_file_cases)
    moreover have "handle_files C E ?w1 ?n1 files =
       (Inr (?n1\<lparr>skipped := skipped ?n1 + int (length (filter is_csv files))\<rparr>),
        ?w1\<lparr>calls := calls ?w1 @ map (\<lambda>f. GetItem (f_id f)) (filter is_csv files)\<rparr>)"
      using Cons.IH [of ?w1 ?n1] Cons.prems by simp
    ultimately show ?thesis using True by (simp add: logged_def)
  qed
qed

text \<open>
  Claim C5, as the code has it. Let every CSV file of the listing carry a non-empty
  modification timestamp, and let a first run over the listing complete. Then a second
  run over the same listing, from any world with the table the first run left and with
  reads of the state store that return, completes with \<^verbatim>\<open>processed = 0\<close>, \<^verbatim>\<open>skipped\<close>
  equal to the number of CSV files of the listing and \<^verbatim>\<open>unmapped = 0\<close>. It changes
  nothing but the call log, to which it adds one \<^verbatim>\<open>get_item\<close> per CSV file: no download,
  no upload, no put.
\<close>

theorem second_run_skips_everything:
  "(\<forall>f\<in>set files. is_csv f \<longrightarrow> or_empty (f_modifiedTime f) \<noteq> [])
   \<and> handle_files C E w n files = (Inr n1, w1)
   \<and> (\<forall>h k. \<not> fails E2 h (GetItem k))
   \<and> table w2 = table w1 \<longrightarrow>
     handle_files C E2 w2 no_counts files =
       (Inr \<lparr>processed = 0, skipped = int (length (filter is_csv files)), unmapped = 0\<rparr>,
        w2\<lparr>calls := calls w2 @ map (\<lambda>f. GetItem (f_id f)) (filter is_csv files)\<rparr>)"
proof
  assume a: "(\<forall>f\<in>set files. is_csv f \<longrightarrow> or_empty (f_modifiedTime f) \<noteq> [])
   \<and> handle_files C E w n files = (Inr n1, w1)
   \<and> (\<forall>h k. \<not> fails E2 h (GetItem k))
   \<and> table w2 = table w1"
  then have "\<forall>f\<in>set files. is_csv f \<longrightarrow> \<not> stale (table w1) (f_id f) (or_empty (f_modifiedTime f))"
    using handle_files_all_fresh [of C E w n files n1 w1] by blast
  with a have "\<forall>f\<in>set files. is_csv f \<longrightarrow>
       or_empty (f_modifiedTime f) \<noteq> [] \<and> \<not> stale (table w2) (f_id f) (or_empty (f_modifiedTime f))"
    by simp
  with a have "handle_files C E2 w2 no_counts files =
     (Inr (no_counts\<lparr>skipped := skipped no_counts + int (length (filter is_csv files))\<rparr>),
      w2\<lparr>calls := calls w2 @ map (\<lambda>f. GetItem (f_id f)) (filter is_csv files)\<rparr>)"
    using handle_files_all_skipped [of E2 files w2 C no_counts] by blast
  then show "handle_files C E2 w2 no_counts files =
       (Inr \<lparr>processed = 0, skipped = int (length (filter is_csv files)), unmapped = 0\<rparr>,
        w2\<lparr>calls := calls w2 @ map (\<lambda>f. GetItem (f_id f)) (filter is_csv files)\<rparr>)"
    by (simp add: no_counts_def)
qed

theorem second_run_skips_everything_witness:
  "fst (handle_files cfg0 env_ok world0 no_counts [file1, file3])
     = Inr \<lparr>processed = 1, skipped = 0, unmapped = 0\<rparr>
   \<and> handle_files cfg0 env_ok (snd (handle_files cfg0 env_ok world0 no_counts [file1, file3]))
        no_counts [file1, file3]
     = (Inr \<lparr>processed = 0, skipped = 1, unmapped = 0\<rparr>,
        (snd (handle_files cfg0 env_ok world0 no_counts [file1, file3]))
          \<lparr>calls := calls (snd (handle_files cfg0 env_ok world0 no_counts [file1, file3]))
                      @ [GetItem ''f1'']\<rparr>)"
proof -
  let ?fs = "[file1, file3]"
  obtain r w1 where run: "handle_files cfg0 env_ok world0 no_counts ?fs = (r, w1)"
    by (cases "handle_files cfg0 env_ok world0 no_counts ?fs")
  have three: "\<And>w n. handle_file cfg0 env_ok w n file3 = (Inr n, w)"
    by (simp add: handle_file_cases file3_facts)
  have r: "r = Inr \<lparr>processed = 1, skipped = 0, unmapped = 0\<rparr>"
    using run by (simp add: first_run_file1 three)
  have ts: "\<forall>f\<in>set ?fs. is_csv f \<longrightarrow> or_empty (f_modifiedTime f) \<noteq> []"
    by (simp add: file1_facts file3_facts)
  have file1_id: "f_id file1 = ''f1''" by (simp add: file1_def)
  have csv: "filter is_csv ?fs = [file1]" by (simp add: file1_facts file3_facts)
  have "handle_files cfg0 env_ok w1 no_counts ?fs =
       (Inr \<lparr>processed = 0, skipped = int (length (filter is_csv ?fs)), unmapped = 0\<rparr>,
        w1\<lparr>calls := calls w1 @ map (\<lambda>f. GetItem (f_id f)) (filter is_csv ?fs)\<rparr>)"
    using second_run_skips_everything [of ?fs cfg0 env_ok world0 no_counts
        "\<lparr>processed = 1, skipped = 0, unmapped = 0\<rparr>" w1 env_ok w1]
      ts run r env_ok_never_fails by blast
  then have "handle_files cfg0 env_ok w1 no_counts ?fs =
       (Inr \<lparr>processed = 0, skipped = 1, unmapped = 0\<rparr>, w1\<lparr>calls := calls w1 @ [GetItem ''f1'']\<rparr>)"
    unfolding csv by (simp add: file1_id)
  then show ?thesis using run r by simp
qed

text \<open>
  Claim C5 as stated holds for every listing. A CSV file without a modification
  timestamp is processed on every run: the second run over the listing of \<^verbatim>\<open>file2\<close>
  alone, from the world the first run left, counts it as processed again.
\<close>

theorem second_run_reprocesses_counterexample:
  "fst (handle_files cfg0 env_ok world0 no_counts [file2])
     = Inr \<lparr>processed = 1, skipped = 0, unmapped = 1\<rparr>
   \<and> fst (handle_files cfg0 env_ok (snd (handle_files cfg0 env_ok world0 no_counts [file2]))
           no_counts [file2])
     = Inr \<lparr>processed = 1, skipped = 0, unmapped = 1\<rparr>"
proof -
  have one: "\<And>w. fst (handle_files cfg0 env_ok w no_counts [file2])
      = Inr \<lparr>processed = 1, skipped = 0, unmapped = 1\<rparr>"
  proof -
    fix w
    obtain r w1 where h: "handle_file cfg0 env_ok w no_counts file2 = (r, w1)"
      by (cases "handle_file cfg0 env_ok w no_counts file2")
    then have "r = Inr \<lparr>processed = 1, skipped = 0, unmapped = 1\<rparr>"
      using file2_always_transferred [of w] by simp
    with h show "fst (handle_files cfg0 env_ok w no_counts [file2])
      = Inr \<lparr>processed = 1, skipped = 0, unmapped = 1\<rparr>" by simp
  qed
  show ?thesis by (simp only: one)
qed

section \<open>The trigger guard\<close>

lemma first_in_flight_find:
  "first_in_flight runs =
     (case find in_flight runs of
        None \<Rightarrow> None
      | Some r \<Rightarrow> Some [(''started'', PyBool False),
                       (''reason'', PyStr (''Glue job already '' @ or_empty (JobRunState r))),
                       (''existing_job_run_id'', opt_val (Id r))])"
  by (induction runs) auto

lemma start_glue_unguarded:
  assumes "0 < p" "GLUE_JOB_NAME C \<noteq> []"
    and "fails E (calls w) (GetJobRuns (GLUE_JOB_NAME C)) \<or> find in_flight (job_runs E (calls w)) = None"
  shows "start_glue_job_if_needed C E w p s u =
     (let h = calls w @ [GetJobRuns (GLUE_JOB_NAME C)];
          c = StartJobRun (GLUE_JOB_NAME C) (start_arguments C (now E h) p s u)
      in (if fails E h c then Inl (ServiceError c)
          else Inr [(''started'', PyBool True), (''job_run_id'', opt_val (new_run_id E h))],
          w\<lparr>calls := h @ [c]\<rparr>))"
  using assms
  unfolding start_glue_job_if_needed_def Let_def
  by (auto simp: require_env_def logged_def utc_now_iso_def first_in_flight_find)





text \<open>
  Claim C7. With a positive processed count and the job name configured, a listing of
  recent runs that raises is not propagated and does not stop the trigger: the next call
  is \<^verbatim>\<open>start_job_run\<close>, and the result is started with the new run's identifier, or the
  exception of the start itself when the start raises.
\<close>

theorem start_glue_guard_advisory:
  "0 < p \<and> GLUE_JOB_NAME C \<noteq> [] \<and> fails E (calls w) (GetJobRuns (GLUE_JOB_NAME C)) \<longrightarrow>
     (let h = calls w @ [GetJobRuns (GLUE_JOB_NAME C)];
          c = StartJobRun (GLUE_JOB_NAME C) (start_arguments C (now E h) p s u)
      in calls (snd (start_glue_job_if_needed C E w p s u)) = h @ [c]
         \<and> fst (start_glue_job_if_needed C E w p s u) =
             (if fails E h c then Inl (ServiceError c)
              else Inr [(''started'', PyBool True), (''job_run_id'', opt_val (new_run_id E h))]))"
  using start_glue_unguarded [of p C E w s u] by (simp add: Let_def)

theorem start_glue_guard_advisory_witness:
  "fails env_query_down (calls world0) (GetJobRuns (GLUE_JOB_NAME cfg0))
   \<and> fst (start_glue_job_if_needed cfg0 env_query_down world0 2 1 0)
     = Inr [(''started'', PyBool True), (''job_run_id'', PyStr ''jr_1'')]
   \<and> calls (snd (start_glue_job_if_needed cfg0 env_query_down world0 2 1 0))
     = [GetJobRuns ''refine'',
        StartJobRun ''refine'' (start_arguments cfg0 ''2024-11-01T00:00:00+00:00'' 2 1 0)]"
proof -
  have j: "GLUE_JOB_NAME cfg0 = ''refine''" by (simp add: cfg0_def)
  have c: "calls world0 = []" by (simp add: world0_def)
  have q: "fails env_query_down (calls world0) (GetJobRuns (GLUE_JOB_NAME cfg0))"
    by (simp add: env_query_down_def is_get_job_runs_def)
  have s: "\<And>h a. \<not> fails env_query_down h (StartJobRun ''refine'' a)"
    by (simp add: env_query_down_def is_get_job_runs_def)
  have "fst (start_glue_job_if_needed cfg0 env_query_down world0 2 1 0)
     = Inr [(''started'', PyBool True), (''job_run_id'', PyStr ''jr_1'')]
   \<and> calls (snd (start_glue_job_if_needed cfg0 env_query_down world0 2 1 0))
     = [GetJobRuns ''refine'',
        StartJobRun ''refine'' (start_arguments cfg0 ''2024-11-01T00:00:00+00:00'' 2 1 0)]"
    using start_glue_guard_advisory [of 2 cfg0 env_query_down world0 1 0] q s
    by (simp add: j c Let_def opt_val_def)
       (simp add: env_query_down_def env_running_def env_ok_def)
  with q show ?thesis by simp
qed

end
